theory Spec2Isabelle
  imports Complex_Main
begin

section \<open>Text and whitespace\<close>

text \<open>
  A Python \<open>str\<close> is a sequence of Unicode code points and \<open>len\<close> counts code points,
  so a text is a list of code points, each a natural number. \<open>py\<close> turns a literal of
  8-bit characters into such a text.
\<close>

type_synonym str = "nat list"

definition py :: "string \<Rightarrow> str" where
  "py s = map of_char s"

text \<open>
  The whitespace of \<open>str.strip()\<close> and of the regular-expression class \<open>\s\<close> on
  \<open>str\<close> patterns: both ask \<open>Py_UNICODE_ISSPACE\<close>.
\<close>

definition isspace :: "nat \<Rightarrow> bool" where
  "isspace c = ((9 \<le> c \<and> c \<le> 13) \<or> (28 \<le> c \<and> c \<le> 32) \<or> c = 133 \<or> c = 160
     \<or> c = 5760 \<or> (8192 \<le> c \<and> c \<le> 8202) \<or> c = 8232 \<or> c = 8233 \<or> c = 8239
     \<or> c = 8287 \<or> c = 12288)"

definition lstrip :: "str \<Rightarrow> str" where
  "lstrip s = dropWhile isspace s"

definition rstrip :: "str \<Rightarrow> str" where
  "rstrip s = rev (dropWhile isspace (rev s))"

text \<open>\<open>s.strip()\<close>: leading and trailing whitespace removed.\<close>

definition strip :: "str \<Rightarrow> str" where
  "strip s = lstrip (rstrip s)"

section \<open>Splitting into sentences and clauses\<close>

text \<open>
  \<open>re.split(r'(?<=[.!?])\s+', text)\<close>: the text is cut at every maximal run of
  whitespace that directly follows \<open>.\<close>, \<open>!\<close> or \<open>?\<close>; the run is dropped, the
  punctuation stays with the piece before it. The pattern never matches the empty
  string, and the result always has at least one piece (\<open>['']\<close> for the empty text).
  \<open>acc\<close> is the piece being read.
\<close>

definition sentence_end :: "nat \<Rightarrow> bool" where
  "sentence_end c = (c = 46 \<or> c = 33 \<or> c = 63)"

function split_sentences_from :: "str \<Rightarrow> str \<Rightarrow> str list" where
  "split_sentences_from acc [] = [acc]"
| "split_sentences_from acc (c # cs) =
     (if sentence_end c \<and> cs \<noteq> [] \<and> isspace (hd cs)
      then (acc @ [c]) # split_sentences_from [] (dropWhile isspace cs)
      else split_sentences_from (acc @ [c]) cs)"
  by pat_completeness auto
termination
  by (relation "measure (\<lambda>(acc, cs). length cs)")
     (auto simp: le_imp_less_Suc length_dropWhile_le)

definition split_sentences :: "str \<Rightarrow> str list" where
  "split_sentences t = split_sentences_from [] t"

text \<open>
  \<open>re.split(r'(,|;|:)', sentence)\<close>: the pattern has a capture group, so the
  delimiters are kept, each as a piece of its own between the pieces it separates.
\<close>

definition clause_delim :: "nat \<Rightarrow> bool" where
  "clause_delim c = (c = 44 \<or> c = 59 \<or> c = 58)"

fun split_clauses_from :: "str \<Rightarrow> str \<Rightarrow> str list" where
  "split_clauses_from acc [] = [acc]"
| "split_clauses_from acc (c # cs) =
     (if clause_delim c then acc # [c] # split_clauses_from [] cs
      else split_clauses_from (acc @ [c]) cs)"

definition split_clauses :: "str \<Rightarrow> str list" where
  "split_clauses s = split_clauses_from [] s"

section \<open>Segmentation by character count\<close>

text \<open>
  \<open>smart_chunk_text\<close> of \<open>mac_cpu.py\<close> and \<open>main2.py\<close> (the two are the same but for
  the default of \<open>max_chunk_size\<close>). The state of the loop is the pair of \<open>chunks\<close> and
  \<open>current_chunk\<close>. \<open>max_chunk_size\<close> is a Python integer.
\<close>

fun clause_step :: "int \<Rightarrow> str list \<times> str \<Rightarrow> str \<Rightarrow> str list \<times> str" where
  "clause_step max_chunk_size (chunks, current_chunk) clause =
     (if int (length current_chunk) + int (length clause) + 1 \<le> max_chunk_size
      then (chunks, current_chunk @ clause)
      else (chunks @ [strip current_chunk], clause))"

fun sentence_step :: "int \<Rightarrow> str list \<times> str \<Rightarrow> str \<Rightarrow> str list \<times> str" where
  "sentence_step max_chunk_size (chunks, current_chunk) sentence =
     (if strip sentence = [] then (chunks, current_chunk)
      else if int (length current_chunk) + int (length sentence) + 1 \<le> max_chunk_size
      then (chunks, current_chunk @ sentence @ [32])
      else if int (length sentence) > max_chunk_size
      then foldl (clause_step max_chunk_size) (chunks, current_chunk) (split_clauses sentence)
      else (chunks @ [strip current_chunk], sentence @ [32]))"

definition smart_chunk_text :: "str \<Rightarrow> int \<Rightarrow> str list" where
  "smart_chunk_text t max_chunk_size =
     (case foldl (sentence_step max_chunk_size) ([], []) (split_sentences t) of
        (chunks, current_chunk) \<Rightarrow>
          if current_chunk \<noteq> [] then chunks @ [strip current_chunk] else chunks)"

section \<open>Segmentation by token count\<close>

text \<open>
  \<open>smart_chunk_text_token_limit\<close> of \<open>windows_cuda.py\<close>. The tokenizer is a model
  loaded at run time; \<open>encode\<close> stands for \<open>tokenizer.encode\<close>, and only the number of
  tokens it returns is used.
\<close>

fun token_step :: "(str \<Rightarrow> nat list) \<Rightarrow> int \<Rightarrow> str list \<times> str \<Rightarrow> str \<Rightarrow> str list \<times> str" where
  "token_step encode max_tokens (chunks, current_chunk) sentence =
     (let temp_chunk = strip (current_chunk @ [32] @ sentence);
          token_count = int (length (encode temp_chunk))
      in if token_count \<le> max_tokens then (chunks, temp_chunk)
         else ((if current_chunk \<noteq> [] then chunks @ [strip current_chunk] else chunks),
               sentence))"

definition smart_chunk_text_token_limit :: "(str \<Rightarrow> nat list) \<Rightarrow> str \<Rightarrow> int \<Rightarrow> str list" where
  "smart_chunk_text_token_limit encode t max_tokens =
     (case foldl (token_step encode max_tokens) ([], []) (split_sentences t) of
        (chunks, current_chunk) \<Rightarrow>
          if current_chunk \<noteq> [] then chunks @ [strip current_chunk] else chunks)"

section \<open>Files and audio\<close>

text \<open>
  A path is a Python \<open>str\<close>. The files of the model are the regular files: a file holds
  text or decodable audio, and directories are not recorded. \<open>AudioSegment.from_wav\<close>
  raises on a missing file and on one that is not audio, which is \<open>None\<close> here.

  An \<open>AudioSegment\<close> is its frame rate and its frames. A frame is abstracted to one value:
  the number of channels and the sample width, which \<open>+\<close> aligns as well, do not change the
  number of frames. The duration is the number of frames over the frame rate;
  \<open>len(segment)\<close> is this duration in milliseconds, rounded.
\<close>

type_synonym path = str

record audio =
  frame_rate :: nat
  frames :: "int list"

datatype file_content = TextFile str | WavFile audio

type_synonym files = "path \<Rightarrow> file_content option"

definition duration_ms :: "audio \<Rightarrow> real" where
  "duration_ms a = 1000 * real (length (frames a)) / real (frame_rate a)"

text \<open>\<open>AudioSegment.empty()\<close>: no data, at a frame rate of 1.\<close>

definition audio_empty :: audio where
  "audio_empty = \<lparr>frame_rate = 1, frames = []\<rparr>"

text \<open>
  \<open>AudioSegment.silent(duration=d)\<close>: \<open>int(frame_rate * (d / 1000.0))\<close> frames of zeros at
  the default frame rate of 11025. For the durations of the scripts, 500 and 400, the
  floating-point product is 5512.5 and 4410, truncated to this quotient.
\<close>

definition silent :: "nat \<Rightarrow> audio" where
  "silent d = \<lparr>frame_rate = 11025, frames = replicate (11025 * d div 1000) 0\<rparr>"

text \<open>
  \<open>set_frame_rate\<close>: nothing to do at the same rate; otherwise the data, when there is any,
  goes through the resampler \<open>audioop.ratecv\<close>, which is outside the scripts and an argument
  here: \<open>ratecv r r' data\<close> are the frames of \<open>data\<close> converted from rate \<open>r\<close> to \<open>r'\<close>.
\<close>

type_synonym resampler = "nat \<Rightarrow> nat \<Rightarrow> int list \<Rightarrow> int list"

definition set_frame_rate :: "resampler \<Rightarrow> nat \<Rightarrow> audio \<Rightarrow> audio" where
  "set_frame_rate ratecv r a =
     (if r = frame_rate a then a
      else \<lparr>frame_rate = r,
            frames = (if frames a = [] then [] else ratecv (frame_rate a) r (frames a))\<rparr>)"

text \<open>
  \<open>a + b\<close> on segments is \<open>a.append(b, crossfade=0)\<close>: both are brought to the higher of the
  two frame rates, and the data of the second follows the data of the first.
\<close>

definition audio_add :: "resampler \<Rightarrow> audio \<Rightarrow> audio \<Rightarrow> audio" where
  "audio_add ratecv a b =
     (let r = max (frame_rate a) (frame_rate b)
      in \<lparr>frame_rate = r,
           frames = frames (set_frame_rate ratecv r a) @ frames (set_frame_rate ratecv r b)\<rparr>)"

definition from_wav :: "files \<Rightarrow> path \<Rightarrow> audio option" where
  "from_wav fs p = (case fs p of Some (WavFile a) \<Rightarrow> Some a | _ \<Rightarrow> None)"

text \<open>
  \<open>os.makedirs(p, exist_ok=True)\<close> raises an \<open>OSError\<close> when the path is empty
  (\<open>FileNotFoundError\<close>), when a regular file stands where one of the directories above
  \<open>p\<close> should be (\<open>NotADirectoryError\<close>) and when \<open>p\<close> itself is a regular file
  (\<open>FileExistsError\<close>). Otherwise it creates the directories that are missing, which
  changes no regular file. \<open>parent_dirs\<close> are the prefixes of the path that end before
  a \<open>/\<close>.
\<close>

datatype error = ExportError | ReadError | OSError

fun parent_dirs :: "path \<Rightarrow> path \<Rightarrow> path list" where
  "parent_dirs acc [] = []"
| "parent_dirs acc (c # cs) =
     (if c = 47 \<and> acc \<noteq> [] \<and> last acc \<noteq> 47
      then acc # parent_dirs (acc @ [c]) cs
      else parent_dirs (acc @ [c]) cs)"

definition makedirs :: "files \<Rightarrow> path \<Rightarrow> error option" where
  "makedirs fs p =
     (if p = [] \<or> list_ex (\<lambda>q. fs q \<noteq> None) (parent_dirs [] p) \<or> fs p \<noteq> None
      then Some OSError
      else None)"

section \<open>Synthesis of the chunks\<close>

text \<open>\<open>f"{i:04d}"\<close>: decimal digits, padded with zeros on the left to four places.\<close>

fun decimal :: "nat \<Rightarrow> str" where
  "decimal n = (if n < 10 then [48 + n] else decimal (n div 10) @ [48 + n mod 10])"

declare decimal.simps [simp del]

definition format_04d :: "nat \<Rightarrow> str" where
  "format_04d i = replicate (4 - length (decimal i)) 48 @ decimal i"

definition chunk_file :: "path \<Rightarrow> nat \<Rightarrow> path" where
  "chunk_file output_dir i = output_dir @ py ''/chunk_'' @ format_04d i @ py ''.wav''"

text \<open>
  \<open>tts.tts_to_file(text, file_path, speaker_wav, language)\<close> is the speech model: it
  gives the audio it writes to \<open>file_path\<close>, or \<open>None\<close> when it raises. The loop of
  \<open>generate_long_audio\<close> runs over \<open>enumerate(chunks)\<close> with the state
  \<open>(audio_files, fs)\<close>; an exception is caught and the chunk skipped. Printing and
  \<open>gc.collect()\<close> change nothing that is modelled.
\<close>

type_synonym tts = "str \<Rightarrow> path \<Rightarrow> path \<Rightarrow> str \<Rightarrow> audio option"

fun generate_chunks :: "tts \<Rightarrow> path \<Rightarrow> path \<Rightarrow> (nat \<times> str) list \<Rightarrow> path list \<times> files
    \<Rightarrow> path list \<times> files" where
  "generate_chunks tts_to_file speaker_wav_path output_dir [] st = st"
| "generate_chunks tts_to_file speaker_wav_path output_dir ((i, chunk) # rest) (audio_files, fs) =
     (case tts_to_file chunk (chunk_file output_dir i) speaker_wav_path (py ''en'') of
        Some a \<Rightarrow> generate_chunks tts_to_file speaker_wav_path output_dir rest
                    (audio_files @ [chunk_file output_dir i],
                     fs(chunk_file output_dir i \<mapsto> WavFile a))
      | None \<Rightarrow> generate_chunks tts_to_file speaker_wav_path output_dir rest (audio_files, fs))"

text \<open>
  \<open>generate_long_audio\<close> first creates the output directory, outside any \<open>try\<close>: when that
  raises, the exception leaves the function before any chunk is made. The three scripts
  differ in the segmenter it calls next, so the segmenter is an argument here; the
  instances follow.
\<close>

definition generate_long_audio :: "(str \<Rightarrow> str list) \<Rightarrow> tts \<Rightarrow> str \<Rightarrow> path \<Rightarrow> path \<Rightarrow> files
    \<Rightarrow> error + path list \<times> files" where
  "generate_long_audio segment tts_to_file t speaker_wav_path output_dir fs =
     (case makedirs fs output_dir of
        Some e \<Rightarrow> Inl e
      | None \<Rightarrow> Inr (generate_chunks tts_to_file speaker_wav_path output_dir
                        (enumerate 0 (segment t)) ([], fs)))"

definition mac_cpu_segment :: "str \<Rightarrow> str list" where
  "mac_cpu_segment t = smart_chunk_text t 2400"

definition main2_segment :: "str \<Rightarrow> str list" where
  "main2_segment t = smart_chunk_text t 2000"

definition windows_cuda_segment :: "(str \<Rightarrow> nat list) \<Rightarrow> str \<Rightarrow> str list" where
  "windows_cuda_segment encode t = smart_chunk_text_token_limit encode t 400"

section \<open>Assembly\<close>

text \<open>
  The loop of \<open>combine_audio_files\<close>, from \<open>combined = AudioSegment.empty()\<close>: every file
  that decodes is appended, followed by the silence; one that does not is skipped. \<open>gap\<close>
  is the \<open>duration\<close> of the silence, 500 in \<open>mac_cpu.py\<close> and \<open>main2.py\<close>, 400 in
  \<open>windows_cuda.py\<close>.
\<close>

fun combine_loop :: "files \<Rightarrow> nat \<Rightarrow> resampler \<Rightarrow> path list \<Rightarrow> audio \<Rightarrow> audio" where
  "combine_loop fs gap ratecv [] combined = combined"
| "combine_loop fs gap ratecv (audio_file # rest) combined =
     (case from_wav fs audio_file of
        Some a \<Rightarrow> combine_loop fs gap ratecv rest
                    (audio_add ratecv combined (audio_add ratecv a (silent gap)))
      | None \<Rightarrow> combine_loop fs gap ratecv rest combined)"

text \<open>
  \<open>combined.export\<close> is not guarded: when it raises, the exception leaves the function.
  \<open>export_ok\<close> says whether the codec can write the track to the path.
\<close>

definition combine_audio_files :: "nat \<Rightarrow> resampler \<Rightarrow> (audio \<Rightarrow> path \<Rightarrow> bool) \<Rightarrow> path list \<Rightarrow> path
    \<Rightarrow> files \<Rightarrow> error + path \<times> files" where
  "combine_audio_files gap ratecv export_ok audio_files final_output fs =
     (let combined = combine_loop fs gap ratecv audio_files audio_empty
      in if export_ok combined final_output
         then Inr (final_output, fs(final_output \<mapsto> WavFile combined))
         else Inl ExportError)"

section \<open>The script\<close>

text \<open>
  The \<open>__main__\<close> block: what the run ends with, and the files it leaves. \<open>exit()\<close>
  after a missing input, the message of a failed generation, the saved track, or an
  exception that nothing catches.
\<close>

datatype outcome =
    StoryNotFound
  | SpeakerNotFound
  | AudioGenerationFailed
  | Saved path
  | Uncaught error

definition story_file_path :: path where
  "story_file_path = py ''./story.txt''"

definition speaker_voice_wav :: path where
  "speaker_voice_wav = py ''./Sample.wav''"

definition final_audio_path :: path where
  "final_audio_path = py ''futuristic_story.wav''"

definition main :: "(str \<Rightarrow> str list) \<Rightarrow> nat \<Rightarrow> tts \<Rightarrow> resampler \<Rightarrow> (audio \<Rightarrow> path \<Rightarrow> bool) \<Rightarrow> files
    \<Rightarrow> outcome \<times> files" where
  "main segment gap tts_to_file ratecv export_ok fs =
     (if fs story_file_path = None then (StoryNotFound, fs)
      else if fs speaker_voice_wav = None then (SpeakerNotFound, fs)
      else case fs story_file_path of
        Some (TextFile story_text) \<Rightarrow>
          (case generate_long_audio segment tts_to_file story_text speaker_voice_wav
                  (py ''story_chunks'') fs of
             Inl e \<Rightarrow> (Uncaught e, fs)
           | Inr (story_chunks, fs1) \<Rightarrow>
               if story_chunks \<noteq> []
               then (case combine_audio_files gap ratecv export_ok story_chunks
                            final_audio_path fs1 of
                       Inr (final_audio, fs2) \<Rightarrow> (Saved final_audio, fs2)
                     | Inl e \<Rightarrow> (Uncaught e, fs1))
               else (AudioGenerationFailed, fs1))
      | _ \<Rightarrow> (Uncaught ReadError, fs))"

definition mac_cpu_main :: "tts \<Rightarrow> resampler \<Rightarrow> (audio \<Rightarrow> path \<Rightarrow> bool) \<Rightarrow> files \<Rightarrow> outcome \<times> files" where
  "mac_cpu_main = main mac_cpu_segment 500"

definition main2_main :: "tts \<Rightarrow> resampler \<Rightarrow> (audio \<Rightarrow> path \<Rightarrow> bool) \<Rightarrow> files \<Rightarrow> outcome \<times> files" where
  "main2_main = main main2_segment 500"

definition windows_cuda_main :: "(str \<Rightarrow> nat list) \<Rightarrow> tts \<Rightarrow> resampler \<Rightarrow> (audio \<Rightarrow> path \<Rightarrow> bool)
    \<Rightarrow> files \<Rightarrow> outcome \<times> files" where
  "windows_cuda_main encode = main (windows_cuda_segment encode) 400"

section \<open>Concrete collaborators for the examples\<close>

text \<open>
  The tokenizer, the speech model, the resampler and the codec are outside the scripts.
  The examples below run the code with these: a tokenizer with one token per code point,
  one that also puts a token before and one after (as a tokenizer with a language code and
  an end-of-sentence token does), a speech model that fails on the listed paths and
  otherwise gives one frame per code point at 24000 frames per second, a resampler that
  repeats every frame as often as the new rate holds the old one, and a codec that always
  writes.
\<close>

definition encode_chars :: "str \<Rightarrow> nat list" where
  "encode_chars s = s"

definition encode_wrapped :: "str \<Rightarrow> nat list" where
  "encode_wrapped s = 0 # s @ [2]"

definition tts_failing_on :: "path list \<Rightarrow> tts" where
  "tts_failing_on bad chunk file_path speaker_wav language =
     (if file_path \<in> set bad then None
      else Some \<lparr>frame_rate = 24000, frames = map int chunk\<rparr>)"

definition ratecv_repeat :: resampler where
  "ratecv_repeat r r' data = concat (map (replicate (r' div r)) data)"

definition export_always :: "audio \<Rightarrow> path \<Rightarrow> bool" where
  "export_always a p = True"

section \<open>What the properties are stated with\<close>

text \<open>A chunk without whitespace at either end; the empty chunk has none.\<close>

definition trimmed :: "str \<Rightarrow> bool" where
  "trimmed u = (case u of [] \<Rightarrow> True | c # cs \<Rightarrow> \<not> isspace c \<and> \<not> isspace (last u))"

text \<open>The size bound of the character count: a chunk has at most \<open>M\<close> code points, or it is
  the stripped text of one clause, longer than \<open>M\<close>, of one of the sentences.\<close>

definition within_chars :: "int \<Rightarrow> str list \<Rightarrow> str \<Rightarrow> bool" where
  "within_chars M sentences u =
     (int (length u) \<le> M \<or>
      (\<exists>s\<in>set sentences. \<exists>c\<in>set (split_clauses s). M < int (length c) \<and> u = strip c))"

text \<open>The size bound of the token count: a chunk has at most \<open>M\<close> tokens, or it is one whole
  stripped sentence of more than \<open>M\<close> tokens.\<close>

definition within_tokens :: "(str \<Rightarrow> nat list) \<Rightarrow> int \<Rightarrow> str list \<Rightarrow> str \<Rightarrow> bool" where
  "within_tokens encode M sentences u =
     (int (length (encode u)) \<le> M \<or>
      (\<exists>s\<in>set sentences. M < int (length (encode (strip s))) \<and> u = strip s))"

text \<open>The invariant of the loop of \<open>smart_chunk_text\<close>: the chunks and the stripped
  \<open>current_chunk\<close> are within the bound.\<close>

definition chars_inv :: "int \<Rightarrow> str list \<Rightarrow> str list \<times> str \<Rightarrow> bool" where
  "chars_inv M sentences st =
     ((\<forall>u\<in>set (fst st). within_chars M sentences u) \<and> within_chars M sentences (strip (snd st)))"

text \<open>The invariant of the loop of \<open>smart_chunk_text_token_limit\<close>; an empty
  \<open>current_chunk\<close> is never appended.\<close>

definition tokens_inv :: "(str \<Rightarrow> nat list) \<Rightarrow> int \<Rightarrow> str list \<Rightarrow> str list \<times> str \<Rightarrow> bool" where
  "tokens_inv encode M sentences st =
     ((\<forall>u\<in>set (fst st). within_tokens encode M sentences u) \<and>
      (snd st = [] \<or> within_tokens encode M sentences (strip (snd st))))"

text \<open>The code points of a text that are not whitespace, in order.\<close>

definition visible :: "str \<Rightarrow> str" where
  "visible s = filter (\<lambda>c. \<not> isspace c) s"

text \<open>What a state of a segmenter's loop has taken from the text so far.\<close>

definition residue :: "str list \<times> str \<Rightarrow> str" where
  "residue st = visible (concat (fst st) @ snd st)"

text \<open>The speech model succeeds on the chunk with this index.\<close>

definition rendered :: "tts \<Rightarrow> path \<Rightarrow> path \<Rightarrow> nat \<times> str \<Rightarrow> bool" where
  "rendered tts_to_file speaker_wav_path output_dir p =
     (tts_to_file (snd p) (chunk_file output_dir (fst p)) speaker_wav_path (py ''en'') \<noteq> None)"




text \<open>
  What \<open>within rounding tolerance\<close> asks of the resampler: between two of the frame rates
  \<open>R\<close>, converting data changes its duration by at most \<open>tol\<close> milliseconds.
\<close>

definition resamples_within :: "resampler \<Rightarrow> nat set \<Rightarrow> real \<Rightarrow> bool" where
  "resamples_within ratecv R tol =
     (\<forall>r\<in>R. \<forall>r'\<in>R. \<forall>data. r < r' \<longrightarrow> data \<noteq> [] \<longrightarrow>
        \<bar>1000 * real (length (ratecv r r' data)) / real r'
          - 1000 * real (length data) / real r\<bar> \<le> tol)"

section \<open>Stripping\<close>

lemma isspace_space: "isspace 32"
  by (simp add: isspace_def)

lemma sentence_end_not_space: "sentence_end c \<Longrightarrow> \<not> isspace c"
  by (auto simp: sentence_end_def isspace_def)

lemma length_strip_le: "length (strip s) \<le> length s"
proof -
  have "length (strip s) \<le> length (rstrip s)"
    by (simp add: strip_def lstrip_def length_dropWhile_le)
  also have "\<dots> \<le> length s"
    using length_dropWhile_le [of isspace "rev s"] by (simp add: rstrip_def)
  finally show ?thesis .
qed

lemma strip_snoc_space: "isspace c \<Longrightarrow> strip (s @ [c]) = strip s"
  by (simp add: strip_def rstrip_def)

lemma filter_dropWhile_not: "filter (\<lambda>c. \<not> P c) (dropWhile P xs) = filter (\<lambda>c. \<not> P c) xs"
  by (induction xs) auto

lemma filter_strip: "filter (\<lambda>c. \<not> isspace c) (strip s) = filter (\<lambda>c. \<not> isspace c) s"
proof -
  have "filter (\<lambda>c. \<not> isspace c) (rstrip s) = filter (\<lambda>c. \<not> isspace c) s"
    unfolding rstrip_def rev_filter [symmetric] filter_dropWhile_not by simp
  then show ?thesis
    by (simp add: strip_def lstrip_def filter_dropWhile_not)
qed

lemma last_dropWhile_keep: "dropWhile P xs \<noteq> [] \<Longrightarrow> last (dropWhile P xs) = last xs"
  by (induction xs) (auto split: if_splits)

lemma rstrip_last: "rstrip s \<noteq> [] \<Longrightarrow> \<not> isspace (last (rstrip s))"
  using hd_dropWhile [of isspace "rev s"] by (simp add: rstrip_def last_rev)

lemma strip_ends:
  assumes "strip s \<noteq> []"
  shows "\<not> isspace (hd (strip s))" and "\<not> isspace (last (strip s))"
proof -
  from assms have ne: "dropWhile isspace (rstrip s) \<noteq> []"
    by (simp add: strip_def lstrip_def)
  then show "\<not> isspace (hd (strip s))"
    by (simp add: strip_def lstrip_def hd_dropWhile)
  from ne have "rstrip s \<noteq> []" by auto
  then have "\<not> isspace (last (rstrip s))" by (rule rstrip_last)
  with ne show "\<not> isspace (last (strip s))"
    by (simp add: strip_def lstrip_def last_dropWhile_keep)
qed

lemma strip_fixed:
  assumes "u \<noteq> []" "\<not> isspace (hd u)" "\<not> isspace (last u)"
  shows "strip u = u"
proof -
  from assms have "dropWhile isspace (rev u) = rev u"
    by (cases "rev u") (auto simp: last_rev [symmetric] hd_rev)
  then have "rstrip u = u" by (simp add: rstrip_def)
  moreover from assms have "dropWhile isspace u = u" by (cases u) auto
  ultimately show ?thesis by (simp add: strip_def lstrip_def)
qed

lemma strip_strip: "strip (strip s) = strip s"
proof (cases "strip s = []")
  case True
  have "strip [] = []" by (simp add: strip_def lstrip_def rstrip_def)
  with True show ?thesis by simp
next
  case False
  then show ?thesis by (intro strip_fixed strip_ends)
qed

lemma strip_all_space: "\<forall>c\<in>set s. isspace c \<Longrightarrow> strip s = []"
  by (auto simp: strip_def lstrip_def rstrip_def dest: set_dropWhileD)

lemma strip_Nil_filter: "strip s = [] \<Longrightarrow> filter (\<lambda>c. \<not> isspace c) s = []"
  using filter_strip [of s] by simp

lemma foldl_invariant:
  assumes "P st" and "\<And>st x. P st \<Longrightarrow> x \<in> set xs \<Longrightarrow> P (f st x)"
  shows "P (foldl f st xs)"
  using assms by (induction xs arbitrary: st) auto

lemma trimmed_strip: "trimmed (strip s)"
proof (cases "strip s")
  case Nil
  then show ?thesis by (simp add: trimmed_def)
next
  case (Cons c cs)
  with strip_ends [of s] show ?thesis by (simp add: trimmed_def)
qed

subsection \<open>Every emitted chunk is stripped\<close>

lemma clause_step_trimmed:
  "list_all trimmed (fst st) \<Longrightarrow> list_all trimmed (fst (clause_step M st c))"
  by (cases st) (simp add: trimmed_strip)

lemma clause_fold_trimmed:
  "list_all trimmed (fst st) \<Longrightarrow> list_all trimmed (fst (foldl (clause_step M) st cs))"
  by (rule foldl_invariant [where P = "\<lambda>st. list_all trimmed (fst st)"])
     (simp_all add: clause_step_trimmed)

lemma sentence_step_trimmed:
  "list_all trimmed (fst st) \<Longrightarrow> list_all trimmed (fst (sentence_step M st s))"
  by (cases st) (simp add: trimmed_strip clause_fold_trimmed)

lemma smart_chunk_text_trimmed: "list_all trimmed (smart_chunk_text t M)"
proof -
  obtain chunks cur where st: "foldl (sentence_step M) ([], []) (split_sentences t) = (chunks, cur)"
    by (cases "foldl (sentence_step M) ([], []) (split_sentences t)")
  have "list_all trimmed (fst (foldl (sentence_step M) ([], []) (split_sentences t)))"
    by (rule foldl_invariant [where P = "\<lambda>st. list_all trimmed (fst st)"])
       (simp_all add: sentence_step_trimmed)
  with st show ?thesis
    by (simp add: smart_chunk_text_def trimmed_strip)
qed

lemma token_step_trimmed:
  "list_all trimmed (fst st) \<Longrightarrow> list_all trimmed (fst (token_step encode M st s))"
  by (cases st) (simp add: trimmed_strip Let_def)

lemma smart_chunk_text_token_limit_trimmed:
  "list_all trimmed (smart_chunk_text_token_limit encode t M)"
proof -
  obtain chunks cur
    where st: "foldl (token_step encode M) ([], []) (split_sentences t) = (chunks, cur)"
    by (cases "foldl (token_step encode M) ([], []) (split_sentences t)")
  have "list_all trimmed (fst (foldl (token_step encode M) ([], []) (split_sentences t)))"
    by (rule foldl_invariant [where P = "\<lambda>st. list_all trimmed (fst st)"])
       (simp_all add: token_step_trimmed)
  with st show ?thesis
    by (simp add: smart_chunk_text_token_limit_def trimmed_strip)
qed

text \<open>
  C10. Every chunk that either segmenter returns has no whitespace at its start and none at
  its end: each chunk is stripped when it is appended.
\<close>

theorem chunks_have_no_outer_whitespace:
  "list_all trimmed (smart_chunk_text t max_chunk_size) \<and>
   list_all trimmed (smart_chunk_text_token_limit encode t max_tokens)"
  by (simp add: smart_chunk_text_trimmed smart_chunk_text_token_limit_trimmed)

subsection \<open>size bound\<close>

lemma within_chars_short: "int (length x) \<le> M \<Longrightarrow> within_chars M S (strip x)"
  using length_strip_le [of x] by (simp add: within_chars_def)

lemma clause_step_inv:
  assumes "chars_inv M S st" "s \<in> set S" "c \<in> set (split_clauses s)"
  shows "chars_inv M S (clause_step M st c)"
proof (cases st)
  case (Pair chunks cur)
  show ?thesis
  proof (cases "int (length cur) + int (length c) + 1 \<le> M")
    case True
    then have "int (length (cur @ c)) \<le> M" by simp
    then have "within_chars M S (strip (cur @ c))" by (rule within_chars_short)
    with assms(1) Pair True show ?thesis by (simp add: chars_inv_def)
  next
    case False
    have "within_chars M S (strip c)"
    proof (cases "int (length c) \<le> M")
      case True
      then show ?thesis by (rule within_chars_short)
    next
      case False
      with assms(2,3)
      have "\<exists>s\<in>set S. \<exists>c'\<in>set (split_clauses s). M < int (length c') \<and> strip c = strip c'"
        by (intro bexI [of _ s] bexI [of _ c]) simp_all
      then show ?thesis by (simp add: within_chars_def)
    qed
    with assms(1) Pair False show ?thesis by (simp add: chars_inv_def)
  qed
qed

lemma clause_fold_inv:
  assumes "chars_inv M S st" "s \<in> set S"
  shows "chars_inv M S (foldl (clause_step M) st (split_clauses s))"
  by (rule foldl_invariant [where P = "chars_inv M S"])
     (use assms in \<open>simp_all add: clause_step_inv\<close>)

lemma sentence_step_inv:
  assumes "chars_inv M S st" "s \<in> set S"
  shows "chars_inv M S (sentence_step M st s)"
proof (cases st)
  case (Pair chunks cur)
  consider (blank) "strip s = []"
    | (fits) "strip s \<noteq> []" "int (length cur) + int (length s) + 1 \<le> M"
    | (long) "strip s \<noteq> []" "\<not> int (length cur) + int (length s) + 1 \<le> M" "M < int (length s)"
    | (new) "strip s \<noteq> []" "\<not> int (length cur) + int (length s) + 1 \<le> M" "\<not> M < int (length s)"
    by blast
  then show ?thesis
  proof cases
    case blank
    with assms(1) Pair show ?thesis by simp
  next
    case fits
    then have "int (length (cur @ s @ [32])) \<le> M" by simp
    then have "within_chars M S (strip (cur @ s @ [32]))" by (rule within_chars_short)
    with assms(1) Pair fits show ?thesis by (simp add: chars_inv_def)
  next
    case long
    with clause_fold_inv [OF assms] Pair show ?thesis by simp
  next
    case new
    then have "within_chars M S (strip s)" by (intro within_chars_short) simp
    then have "within_chars M S (strip (s @ [32]))"
      by (simp add: strip_snoc_space isspace_space)
    with assms(1) Pair new show ?thesis by (simp add: chars_inv_def)
  qed
qed

lemma smart_chunk_text_within:
  assumes "0 \<le> M" "u \<in> set (smart_chunk_text t M)"
  shows "within_chars M (split_sentences t) u"
proof -
  have "strip [] = []" by (simp add: strip_def lstrip_def rstrip_def)
  with assms(1) have "chars_inv M (split_sentences t) ([], [])"
    by (simp add: chars_inv_def within_chars_def)
  then have "chars_inv M (split_sentences t)
      (foldl (sentence_step M) ([], []) (split_sentences t))"
    by (rule foldl_invariant) (simp add: sentence_step_inv)
  moreover obtain chunks cur
    where "foldl (sentence_step M) ([], []) (split_sentences t) = (chunks, cur)"
    by (cases "foldl (sentence_step M) ([], []) (split_sentences t)")
  ultimately show ?thesis
    using assms(2) by (auto simp: smart_chunk_text_def chars_inv_def split: if_splits)
qed

lemma token_step_inv:
  assumes "tokens_inv encode M S st" "s \<in> set S"
  shows "tokens_inv encode M S (token_step encode M st s)"
proof (cases st)
  case (Pair chunks cur)
  show ?thesis
  proof (cases "int (length (encode (strip (cur @ [32] @ s)))) \<le> M")
    case True
    then have "within_tokens encode M S (strip (strip (cur @ [32] @ s)))"
      by (simp add: within_tokens_def strip_strip)
    with assms(1) Pair True show ?thesis by (simp add: tokens_inv_def)
  next
    case False
    have "within_tokens encode M S (strip s)"
    proof (cases "int (length (encode (strip s))) \<le> M")
      case True
      then show ?thesis by (simp add: within_tokens_def)
    next
      case False
      with assms(2)
      have "\<exists>s'\<in>set S. M < int (length (encode (strip s'))) \<and> strip s = strip s'"
        by (intro bexI [of _ s]) simp_all
      then show ?thesis by (simp add: within_tokens_def)
    qed
    with assms(1) Pair False show ?thesis by (auto simp: tokens_inv_def)
  qed
qed

lemma smart_chunk_text_token_limit_within:
  assumes "u \<in> set (smart_chunk_text_token_limit encode t M)"
  shows "within_tokens encode M (split_sentences t) u"
proof -
  have "tokens_inv encode M (split_sentences t) ([], [])"
    by (simp add: tokens_inv_def)
  then have "tokens_inv encode M (split_sentences t)
      (foldl (token_step encode M) ([], []) (split_sentences t))"
    by (rule foldl_invariant) (simp add: token_step_inv)
  moreover obtain chunks cur
    where "foldl (token_step encode M) ([], []) (split_sentences t) = (chunks, cur)"
    by (cases "foldl (token_step encode M) ([], []) (split_sentences t)")
  ultimately show ?thesis
    using assms by (auto simp: smart_chunk_text_token_limit_def tokens_inv_def split: if_splits)
qed

text \<open>
  C1, as the code has it. For a positive budget \<open>M\<close>, every chunk of \<open>smart_chunk_text\<close> has at
  most \<open>M\<close> code points, unless it is the stripped text of one clause that is itself longer
  than \<open>M\<close>. \<open>smart_chunk_text_token_limit\<close> never splits a sentence into clauses: every
  chunk of it has at most \<open>M\<close> tokens, unless it is one whole stripped sentence of more than
  \<open>M\<close> tokens.
\<close>

theorem segment_size_bound:
  assumes "0 < M"
  shows "(\<forall>u\<in>set (smart_chunk_text t M). within_chars M (split_sentences t) u) \<and>
         (\<forall>u\<in>set (smart_chunk_text_token_limit encode t M).
            within_tokens encode M (split_sentences t) u)"
  using assms by (simp add: smart_chunk_text_within smart_chunk_text_token_limit_within)

subsection \<open>Non-whitespace content\<close>

lemma visible_Nil: "visible [] = []"
  by (simp add: visible_def)

lemma visible_Cons: "visible (c # s) = (if isspace c then visible s else c # visible s)"
  by (simp add: visible_def)

lemma visible_append: "visible (a @ b) = visible a @ visible b"
  by (simp add: visible_def)

lemma visible_strip: "visible (strip s) = visible s"
  by (simp add: visible_def filter_strip)

lemma visible_space: "visible [32] = []"
  by (simp add: visible_def isspace_space)

lemma visible_dropWhile: "visible (dropWhile isspace s) = visible s"
  by (simp add: visible_def filter_dropWhile_not)

lemma visible_blank: "strip s = [] \<Longrightarrow> visible s = []"
  by (simp add: visible_def strip_Nil_filter)

lemma concat_split_clauses_from: "concat (split_clauses_from acc s) = acc @ s"
  by (induction acc s rule: split_clauses_from.induct) simp_all

lemma concat_split_clauses: "concat (split_clauses s) = s"
  by (simp add: split_clauses_def concat_split_clauses_from)

lemma visible_split_sentences_from:
  "visible (concat (split_sentences_from acc t)) = visible (acc @ t)"
proof (induction acc t rule: split_sentences_from.induct)
  case (1 acc)
  show ?case by simp
next
  case (2 acc c cs)
  show ?case
  proof (cases "sentence_end c \<and> cs \<noteq> [] \<and> isspace (hd cs)")
    case True
    with 2(1) have "visible (concat (split_sentences_from [] (dropWhile isspace cs))) = visible cs"
      by (simp add: visible_dropWhile)
    with True show ?thesis by (simp add: visible_append visible_Cons)
  next
    case False
    with 2(2) show ?thesis by auto
  qed
qed

lemma visible_split_sentences: "visible (concat (split_sentences t)) = visible t"
  by (simp add: split_sentences_def visible_split_sentences_from)

lemma residue_clause_step: "residue (clause_step M st c) = residue st @ visible c"
  by (cases st) (simp add: residue_def visible_append visible_strip)

lemma residue_clause_fold:
  "residue (foldl (clause_step M) st cs) = residue st @ visible (concat cs)"
  by (induction cs arbitrary: st) (simp_all add: residue_clause_step visible_append visible_Nil)

lemma residue_sentence_step: "residue (sentence_step M st s) = residue st @ visible s"
proof (cases st)
  case (Pair chunks cur)
  have "residue (foldl (clause_step M) (chunks, cur) (split_clauses s))
      = residue (chunks, cur) @ visible s"
    by (simp add: residue_clause_fold concat_split_clauses)
  with Pair show ?thesis
    by (simp add: residue_def visible_append visible_strip visible_space visible_blank)
qed

lemma residue_sentence_fold:
  "residue (foldl (sentence_step M) st ss) = residue st @ visible (concat ss)"
  by (induction ss arbitrary: st) (simp_all add: residue_sentence_step visible_append visible_Nil)

lemma residue_token_step: "residue (token_step encode M st s) = residue st @ visible s"
  by (cases st)
     (simp add: residue_def visible_append visible_strip visible_Cons isspace_space Let_def
        visible_Nil)

lemma residue_token_fold:
  "residue (foldl (token_step encode M) st ss) = residue st @ visible (concat ss)"
  by (induction ss arbitrary: st) (simp_all add: residue_token_step visible_append visible_Nil)

lemma visible_smart_chunk_text: "visible (concat (smart_chunk_text t M)) = visible t"
proof -
  obtain chunks cur where st: "foldl (sentence_step M) ([], []) (split_sentences t) = (chunks, cur)"
    by (cases "foldl (sentence_step M) ([], []) (split_sentences t)")
  have "residue (chunks, cur) = visible t"
    using residue_sentence_fold [of M "([], [])" "split_sentences t"]
    by (simp add: st residue_def [of "([], [])"] visible_Nil visible_split_sentences)
  with st show ?thesis
    by (auto simp: smart_chunk_text_def residue_def visible_append visible_strip visible_Nil)
qed

lemma visible_smart_chunk_text_token_limit:
  "visible (concat (smart_chunk_text_token_limit encode t M)) = visible t"
proof -
  obtain chunks cur
    where st: "foldl (token_step encode M) ([], []) (split_sentences t) = (chunks, cur)"
    by (cases "foldl (token_step encode M) ([], []) (split_sentences t)")
  have "residue (chunks, cur) = visible t"
    using residue_token_fold [of encode M "([], [])" "split_sentences t"]
    by (simp add: st residue_def [of "([], [])"] visible_Nil visible_split_sentences)
  with st show ?thesis
    by (auto simp: smart_chunk_text_token_limit_def residue_def visible_append visible_strip
        visible_Nil)
qed

text \<open>
  C4. The chunks concatenated in order have exactly the non-whitespace code points of the
  input text, in the same order: none is added, dropped or moved. This holds for both
  segmenters.
\<close>

theorem segment_preserves_visible_text:
  "visible (concat (smart_chunk_text t max_chunk_size)) = visible t \<and>
   visible (concat (smart_chunk_text_token_limit encode t max_tokens)) = visible t"
  by (simp add: visible_smart_chunk_text visible_smart_chunk_text_token_limit)

subsection \<open>Blank input\<close>

lemma split_sentences_from_blank:
  "\<forall>c\<in>set t. isspace c \<Longrightarrow> split_sentences_from acc t = [acc @ t]"
proof (induction acc t rule: split_sentences_from.induct)
  case (1 acc)
  show ?case by simp
next
  case (2 acc c cs)
  from 2(3) have "\<not> sentence_end c" using sentence_end_not_space by auto
  with 2 show ?case by simp
qed

lemma split_sentences_blank: "\<forall>c\<in>set t. isspace c \<Longrightarrow> split_sentences t = [t]"
  by (simp add: split_sentences_def split_sentences_from_blank)

lemma smart_chunk_text_blank:
  assumes "\<forall>c\<in>set t. isspace c"
  shows "smart_chunk_text t M = []"
  using assms by (simp add: smart_chunk_text_def split_sentences_blank strip_all_space)

lemma smart_chunk_text_token_limit_blank:
  assumes "\<forall>c\<in>set t. isspace c" "t = [] \<or> int (length (encode [])) \<le> M"
  shows "smart_chunk_text_token_limit encode t M = []"
proof -
  from assms(1) have "strip ([32] @ t) = []"
    by (intro strip_all_space) (simp add: isspace_space)
  with assms show ?thesis
    by (auto simp: smart_chunk_text_token_limit_def split_sentences_blank Let_def)
qed

lemmas segment_eval =
  py_def smart_chunk_text_def smart_chunk_text_token_limit_def split_sentences_def
  split_clauses_def clause_delim_def sentence_end_def strip_def lstrip_def rstrip_def
  isspace_def Let_def encode_chars_def encode_wrapped_def

theorem chunks_have_no_outer_whitespace_witness:
  "smart_chunk_text (py ''One. Two, three. Four'') 8
     = [py ''One.'', py ''Two,'', py ''three.'', py ''Four''] \<and>
   list_all trimmed (smart_chunk_text (py ''One. Two, three. Four'') 8) \<and>
   list_all trimmed (smart_chunk_text_token_limit encode_chars (py ''One. Two, three. Four'') 8)"
  using chunks_have_no_outer_whitespace [of "py ''One. Two, three. Four''" 8 encode_chars 8]
  by (simp add: segment_eval)

theorem segment_size_bound_witness:
  "0 < (5::int) \<and>
   list_all (within_chars 5 (split_sentences (py ''Hi there.  A, b'')))
     (smart_chunk_text (py ''Hi there.  A, b'') 5) \<and>
   list_all (within_tokens encode_chars 5 (split_sentences (py ''Hi there.  A, b'')))
     (smart_chunk_text_token_limit encode_chars (py ''Hi there.  A, b'') 5)"
  using segment_size_bound [of 5 "py ''Hi there.  A, b''" encode_chars]
  by (simp add: list_all_iff)

text \<open>
  C1 as stated fails for the token count. With one token per code point and a budget of 2
  the text \<open>a,b\<close> comes back as one chunk of 3 tokens, and none of its clauses \<open>a\<close>,
  \<open>,\<close> and \<open>b\<close> is over the budget.
\<close>

theorem token_segment_size_bound_counterexample:
  "smart_chunk_text_token_limit encode_chars (py ''a,b'') 2 = [py ''a,b''] \<and>
   \<not> int (length (encode_chars (py ''a,b''))) \<le> 2 \<and>
   split_sentences (py ''a,b'') = [py ''a,b''] \<and>
   split_clauses (py ''a,b'') = [py ''a'', py '','', py ''b''] \<and>
   int (length (encode_chars (py ''a''))) \<le> 2 \<and>
   int (length (encode_chars (py '',''))) \<le> 2 \<and>
   int (length (encode_chars (py ''b''))) \<le> 2"
  by (simp add: segment_eval)

theorem segment_preserves_visible_text_witness:
  "visible (py ''Hi there.  A, b'') = py ''Hithere.A,b'' \<and>
   visible (concat (smart_chunk_text (py ''Hi there.  A, b'') 5)) = visible (py ''Hi there.  A, b'') \<and>
   visible (concat (smart_chunk_text_token_limit encode_chars (py ''Hi there.  A, b'') 5))
     = visible (py ''Hi there.  A, b'')"
  using segment_preserves_visible_text [of "py ''Hi there.  A, b''" 5 encode_chars 5]
  by (simp add: visible_def py_def isspace_def)

subsection \<open>Oversized sentences\<close>



















text \<open>
  C8 fails on the code. When the first sentence does not fit, \<open>current_chunk\<close> is still empty
  and is appended all the same: the first chunk is the empty string. The flush after the
  loop and the flush of \<open>smart_chunk_text_token_limit\<close> both test \<open>current_chunk\<close> first.
\<close>

theorem first_long_sentence_gives_empty_chunk:
  "smart_chunk_text (py ''abc'') 3 = [] # [py ''abc''] \<and>
   smart_chunk_text (py ''Hello world, hi'') 6 = [] # [py ''Hello world'', py '', hi'']"
  by (simp add: segment_eval)

text \<open>
  C9 holds for \<open>smart_chunk_text\<close> (\<open>smart_chunk_text_blank\<close>), and for
  \<open>smart_chunk_text_token_limit\<close> when the empty string has at most \<open>max_tokens\<close> tokens
  (\<open>smart_chunk_text_token_limit_blank\<close>). When it has more, a blank text becomes
  \<open>current_chunk\<close> unstripped, passes the test of the last flush, and one empty chunk is
  returned. \<open>smart_chunk_text\<close> skips a blank sentence before anything else.
\<close>

theorem token_segment_blank_text_gives_empty_chunk:
  "length (encode_wrapped []) = 2 \<and>
   smart_chunk_text_token_limit encode_wrapped (py '' '') 1 = [] # [] \<and>
   smart_chunk_text (py '' '') 1 = []"
  by (simp add: segment_eval)

subsection \<open>Synthesis\<close>

lemma generate_chunks_files:
  "fst (generate_chunks tts_to_file speaker output_dir ps (audio_files, fs)) =
     audio_files @ map (\<lambda>p. chunk_file output_dir (fst p))
                       (filter (rendered tts_to_file speaker output_dir) ps)"
proof (induction ps arbitrary: audio_files fs)
  case Nil
  show ?case by simp
next
  case (Cons p ps)
  obtain i chunk where p: "p = (i, chunk)" by (cases p)
  show ?case
  proof (cases "tts_to_file chunk (chunk_file output_dir i) speaker (py ''en'')")
    case None
    then show ?thesis by (simp add: p Cons.IH rendered_def)
  next
    case (Some a)
    then show ?thesis by (simp add: p Cons.IH rendered_def)
  qed
qed

lemma enumerate_nth: "enumerate 0 xs = map (\<lambda>i. (i, xs ! i)) [0..<length xs]"
  by (rule nth_equalityI) (simp_all add: nth_enumerate_eq)

lemma length_filter_upt_not_in:
  assumes "F \<subseteq> {..<n}"
  shows "length (filter (\<lambda>i. i \<notin> F) [0..<n]) = n - card F"
proof -
  have d: "distinct (filter (\<lambda>i. i \<notin> F) [0..<n])" by simp
  have s: "set (filter (\<lambda>i. i \<notin> F) [0..<n]) = {..<n} - F" by auto
  from distinct_card [OF d] have "length (filter (\<lambda>i. i \<notin> F) [0..<n]) = card ({..<n} - F)"
    unfolding s by simp
  also have "card ({..<n} - F) = n - card F"
    using assms by (simp add: card_Diff_subset finite_subset [of F "{..<n}"])
  finally show ?thesis .
qed

text \<open>
  C5. When the speech model fails on exactly the chunks with an index in \<open>F\<close>, the loop of
  \<open>generate_long_audio\<close> returns the files of all the other chunks, in the order of the
  chunks, and so \<open>N - |F|\<close> of them. The loop has no way to stop early: it returns for every
  input.
\<close>

theorem generate_skips_failed_chunks:
  assumes "F = {i. i < length chunks \<and>
             tts_to_file (chunks ! i) (chunk_file output_dir i) speaker (py ''en'') = None}"
  shows "fst (generate_chunks tts_to_file speaker output_dir (enumerate 0 chunks) ([], fs))
           = map (chunk_file output_dir) (filter (\<lambda>i. i \<notin> F) [0..<length chunks]) \<and>
         length (fst (generate_chunks tts_to_file speaker output_dir (enumerate 0 chunks) ([], fs)))
           = length chunks - card F"
proof -
  have sel: "filter (\<lambda>i. rendered tts_to_file speaker output_dir (i, chunks ! i)) [0..<length chunks]
      = filter (\<lambda>i. i \<notin> F) [0..<length chunks]"
    by (rule filter_cong) (auto simp: assms rendered_def)
  have files: "fst (generate_chunks tts_to_file speaker output_dir (enumerate 0 chunks) ([], fs))
      = map (chunk_file output_dir) (filter (\<lambda>i. i \<notin> F) [0..<length chunks])"
    by (simp add: generate_chunks_files enumerate_nth filter_map sel comp_def)
  have "F \<subseteq> {..<length chunks}" by (auto simp: assms)
  then have "length (filter (\<lambda>i. i \<notin> F) [0..<length chunks]) = length chunks - card F"
    by (rule length_filter_upt_not_in)
  with files show ?thesis by simp
qed

lemma generate_chunks_all_fail:
  assumes "\<forall>p\<in>set ps. \<not> rendered tts_to_file speaker output_dir p"
  shows "generate_chunks tts_to_file speaker output_dir ps st = st"
  using assms
proof (induction ps)
  case Nil
  show ?case by simp
next
  case (Cons p ps)
  obtain i chunk where p: "p = (i, chunk)" by (cases p)
  obtain audio_files fs where st: "st = (audio_files, fs)" by (cases st)
  from Cons.prems have "tts_to_file chunk (chunk_file output_dir i) speaker (py ''en'') = None"
    by (simp add: p rendered_def)
  moreover from Cons have "generate_chunks tts_to_file speaker output_dir ps st = st" by simp
  ultimately show ?case by (simp add: p st)
qed

subsection \<open>Assembly\<close>

lemma frame_rate_set_frame_rate: "frame_rate (set_frame_rate ratecv r a) = r"
  by (simp add: set_frame_rate_def)

lemma duration_ms_audio_add:
  "duration_ms (audio_add ratecv a b) =
     duration_ms (set_frame_rate ratecv (max (frame_rate a) (frame_rate b)) a)
     + duration_ms (set_frame_rate ratecv (max (frame_rate a) (frame_rate b)) b)"
  by (simp add: audio_add_def duration_ms_def frame_rate_set_frame_rate Let_def
      add_divide_distrib distrib_left)

lemma set_frame_rate_error:
  assumes "resamples_within ratecv R tol" "0 \<le> tol"
    and "frame_rate a \<in> R \<or> frames a = []" "r \<in> R" "frame_rate a \<le> r"
  shows "\<bar>duration_ms (set_frame_rate ratecv r a) - duration_ms a\<bar> \<le> tol"
proof (cases "r = frame_rate a \<or> frames a = []")
  case True
  with assms(2) show ?thesis by (auto simp: set_frame_rate_def duration_ms_def)
next
  case False
  with assms(3,5) have "frame_rate a \<in> R" "frame_rate a < r" "frames a \<noteq> []" by auto
  with assms(1,4)
  have "\<bar>1000 * real (length (ratecv (frame_rate a) r (frames a))) / real r
      - 1000 * real (length (frames a)) / real (frame_rate a)\<bar> \<le> tol"
    unfolding resamples_within_def by blast
  with False show ?thesis by (simp add: set_frame_rate_def duration_ms_def)
qed

lemma audio_add_error:
  assumes "resamples_within ratecv R tol" "0 \<le> tol"
    and "frame_rate a \<in> R \<or> (frames a = [] \<and> frame_rate a \<le> frame_rate b)"
    and "frame_rate b \<in> R"
  shows "\<bar>duration_ms (audio_add ratecv a b) - (duration_ms a + duration_ms b)\<bar> \<le> tol"
proof (cases "frame_rate a \<le> frame_rate b")
  case True
  then have r: "max (frame_rate a) (frame_rate b) = frame_rate b" by simp
  have b: "set_frame_rate ratecv (frame_rate b) b = b" by (simp add: set_frame_rate_def)
  from assms(3) have "frame_rate a \<in> R \<or> frames a = []" by blast
  from set_frame_rate_error [OF assms(1,2) this assms(4) True]
  show ?thesis by (simp add: duration_ms_audio_add r b)
next
  case False
  then have r: "max (frame_rate a) (frame_rate b) = frame_rate a" by simp
  have a: "set_frame_rate ratecv (frame_rate a) a = a" by (simp add: set_frame_rate_def)
  from False assms(3) have inR: "frame_rate a \<in> R" by auto
  from False have le: "frame_rate b \<le> frame_rate a" by simp
  from assms(4) have "frame_rate b \<in> R \<or> frames b = []" by blast
  from set_frame_rate_error [OF assms(1,2) this inR le]
  show ?thesis by (simp add: duration_ms_audio_add r a)
qed

lemma frame_rate_audio_add:
  "frame_rate (audio_add ratecv a b) = max (frame_rate a) (frame_rate b)"
  by (simp add: audio_add_def Let_def)

lemma silent_error: "\<bar>duration_ms (silent gap) - real gap\<bar> \<le> 1000 / 11025"
proof -
  define q where "q = 11025 * gap div 1000"
  have lo: "1000 * q \<le> 11025 * gap" unfolding q_def by simp
  have hi: "11025 * gap < 1000 * q + 1000"
    unfolding q_def using dividend_less_times_div [of 1000 "11025 * gap"] by simp
  from lo have "real (1000 * q) \<le> real (11025 * gap)" by (simp only: of_nat_le_iff)
  then have lo': "1000 * real q \<le> 11025 * real gap" by simp
  from hi have "real (11025 * gap) < real (1000 * q + 1000)" by (simp only: of_nat_less_iff)
  then have hi': "11025 * real gap < 1000 * real q + 1000" by simp
  have d: "duration_ms (silent gap) = 1000 * real q / 11025"
    by (simp add: silent_def duration_ms_def q_def)
  have "\<bar>1000 * real q / 11025 - real gap\<bar> \<le> 1000 / 11025"
    using lo' hi' by (simp add: abs_le_iff field_simps)
  then show ?thesis by (simp only: d)
qed

lemma combine_step_error:
  assumes H: "resamples_within ratecv R tol" and tol: "0 \<le> tol"
    and a: "frame_rate a \<in> R" and s: "11025 \<in> R"
    and c: "frame_rate c \<in> R \<or> c = audio_empty"
  shows "\<bar>duration_ms (audio_add ratecv c (audio_add ratecv a (silent gap)))
           - (duration_ms c + duration_ms a + real gap)\<bar> \<le> 2 * tol + 1000 / 11025"
    and "frame_rate (audio_add ratecv c (audio_add ratecv a (silent gap))) \<in> R"
proof -
  let ?x = "audio_add ratecv a (silent gap)"
  have rs: "frame_rate (silent gap) = 11025" by (simp add: silent_def)
  have rx: "frame_rate ?x = max (frame_rate a) 11025" by (simp add: frame_rate_audio_add rs)
  with a s have xR: "frame_rate ?x \<in> R" by (simp add: max_def)
  from rx have big: "1 \<le> frame_rate ?x" by simp
  from a s have "\<bar>duration_ms ?x - (duration_ms a + duration_ms (silent gap))\<bar> \<le> tol"
    by (intro audio_add_error [OF H tol]) (simp_all add: rs)
  moreover from c big
  have c': "frame_rate c \<in> R \<or> (frames c = [] \<and> frame_rate c \<le> frame_rate ?x)"
    by (auto simp: audio_empty_def)
  then have "\<bar>duration_ms (audio_add ratecv c ?x) - (duration_ms c + duration_ms ?x)\<bar> \<le> tol"
    using xR by (intro audio_add_error [OF H tol])
  moreover note silent_error [of gap]
  ultimately show "\<bar>duration_ms (audio_add ratecv c ?x)
      - (duration_ms c + duration_ms a + real gap)\<bar> \<le> 2 * tol + 1000 / 11025"
    by linarith
  from c big xR show "frame_rate (audio_add ratecv c ?x) \<in> R"
    by (auto simp: frame_rate_audio_add max_def audio_empty_def)
qed

lemma error_chain:
  fixes x y c a g e S n :: real
  assumes "\<bar>x - (c + a + g)\<bar> \<le> e" "\<bar>y - (x + S + n * g)\<bar> \<le> n * e"
  shows "\<bar>y - (c + (a + S) + (1 + n) * g)\<bar> \<le> (1 + n) * e"
proof -
  have "(1 + n) * g = g + n * g" "(1 + n) * e = e + n * e" by (simp_all add: algebra_simps)
  with assms show ?thesis by linarith
qed

lemma combine_loop_error:
  assumes H: "resamples_within ratecv R tol" and tol: "0 \<le> tol" and s: "11025 \<in> R"
    and rates: "\<forall>a\<in>set (List.map_filter (from_wav fs) audio_files). frame_rate a \<in> R"
    and c: "frame_rate c \<in> R \<or> c = audio_empty"
  shows "\<bar>duration_ms (combine_loop fs gap ratecv audio_files c)
           - (duration_ms c
              + sum_list (map duration_ms (List.map_filter (from_wav fs) audio_files))
              + real (length (List.map_filter (from_wav fs) audio_files)) * real gap)\<bar>
         \<le> real (length (List.map_filter (from_wav fs) audio_files)) * (2 * tol + 1000 / 11025)"
  using rates c
proof (induction audio_files arbitrary: c)
  case Nil
  show ?case by (simp add: List.map_filter_simps)
next
  case (Cons f rest)
  show ?case
  proof (cases "from_wav fs f")
    case None
    with Cons.prems(1) have "\<forall>a\<in>set (List.map_filter (from_wav fs) rest). frame_rate a \<in> R"
      by (simp add: List.map_filter_simps)
    from Cons.IH [OF this Cons.prems(2)] None show ?thesis
      by (simp add: List.map_filter_simps)
  next
    case (Some a)
    let ?c = "audio_add ratecv c (audio_add ratecv a (silent gap))"
    let ?ds = "List.map_filter (from_wav fs) rest"
    from Some Cons.prems(1) have a: "frame_rate a \<in> R" and rest: "\<forall>a\<in>set ?ds. frame_rate a \<in> R"
      by (simp_all add: List.map_filter_simps)
    from combine_step_error [OF H tol a s Cons.prems(2), of gap]
    have step: "\<bar>duration_ms ?c - (duration_ms c + duration_ms a + real gap)\<bar>
        \<le> 2 * tol + 1000 / 11025"
      and "frame_rate ?c \<in> R" by simp_all
    then have "frame_rate ?c \<in> R \<or> ?c = audio_empty" by simp
    from Cons.IH [OF rest this]
    have "\<bar>duration_ms (combine_loop fs gap ratecv rest ?c)
        - (duration_ms ?c + sum_list (map duration_ms ?ds) + real (length ?ds) * real gap)\<bar>
        \<le> real (length ?ds) * (2 * tol + 1000 / 11025)" .
    with step have "\<bar>duration_ms (combine_loop fs gap ratecv rest ?c)
        - (duration_ms c + (duration_ms a + sum_list (map duration_ms ?ds))
           + (1 + real (length ?ds)) * real gap)\<bar>
        \<le> (1 + real (length ?ds)) * (2 * tol + 1000 / 11025)"
      by (rule error_chain)
    with Some show ?thesis by (simp add: List.map_filter_simps)
  qed
qed

text \<open>
  C2, as the code has it. The track that \<open>combine_audio_files\<close> writes lasts as long as the
  files that decode, plus one silence for each of them (a silence follows the last file
  too), within rounding tolerance: for each decoded file at most two conversions of the
  frame rate, each within \<open>tol\<close>, and the truncation of the silence to whole frames at
  11025 frames per second.
\<close>

theorem assembled_duration:
  assumes "combine_audio_files gap ratecv export_ok audio_files final_output fs = Inr (out, fs')"
    and "resamples_within ratecv
           (insert 11025 (frame_rate ` set (List.map_filter (from_wav fs) audio_files))) tol"
    and "0 \<le> tol"
  shows "\<exists>track. fs' out = Some (WavFile track) \<and>
           \<bar>duration_ms track
              - (sum_list (map duration_ms (List.map_filter (from_wav fs) audio_files))
                 + real (length (List.map_filter (from_wav fs) audio_files)) * real gap)\<bar>
           \<le> real (length (List.map_filter (from_wav fs) audio_files))
                * (2 * tol + 1000 / 11025)"
proof -
  let ?track = "combine_loop fs gap ratecv audio_files audio_empty"
  from assms(1) have "out = final_output" "fs' = fs(final_output \<mapsto> WavFile ?track)"
    by (auto simp: combine_audio_files_def Let_def split: if_splits)
  then have "fs' out = Some (WavFile ?track)" by simp
  moreover have "duration_ms audio_empty = 0" by (simp add: duration_ms_def audio_empty_def)
  with combine_loop_error [OF assms(2,3), of fs audio_files audio_empty gap]
  have "\<bar>duration_ms ?track
      - (sum_list (map duration_ms (List.map_filter (from_wav fs) audio_files))
         + real (length (List.map_filter (from_wav fs) audio_files)) * real gap)\<bar>
      \<le> real (length (List.map_filter (from_wav fs) audio_files)) * (2 * tol + 1000 / 11025)"
    by simp
  ultimately show ?thesis by blast
qed

lemma combine_loop_none:
  "\<forall>p\<in>set audio_files. from_wav fs p = None
     \<Longrightarrow> combine_loop fs gap ratecv audio_files combined = combined"
  by (induction audio_files) simp_all

text \<open>
  C3, as the code has it. When no file decodes (the list may be empty),
  \<open>combine_audio_files\<close> exports the empty track to the output path and returns the path; it
  fails only when the export itself does.
\<close>

theorem combine_without_audio_exports_empty_track:
  assumes "\<forall>p\<in>set audio_files. from_wav fs p = None"
  shows "combine_audio_files gap ratecv export_ok audio_files final_output fs =
           (if export_ok audio_empty final_output
            then Inr (final_output, fs(final_output \<mapsto> WavFile audio_empty))
            else Inl ExportError)"
  using assms by (simp add: combine_audio_files_def combine_loop_none)

subsection \<open>The run\<close>

lemma main_makedirs_error:
  assumes "fs story_file_path = Some (TextFile story_text)"
    and "fs speaker_voice_wav \<noteq> None"
    and "makedirs fs (py ''story_chunks'') = Some e"
  shows "main segment gap tts_to_file ratecv export_ok fs = (Uncaught e, fs)"
  using assms by (simp add: main_def generate_long_audio_def)

text \<open>
  C6. When the two inputs are there, the output directory can be made and the speech model
  fails on every chunk, the run ends with the message of the failed generation and leaves
  the files as they were: \<open>combine_audio_files\<close> is not called and nothing is written to the
  output path. When the directory cannot be made the run ends before any synthesis, with
  the exception (\<open>main_makedirs_error\<close>). The three scripts are the instances
  \<open>mac_cpu_main\<close>, \<open>main2_main\<close> and \<open>windows_cuda_main\<close>.
\<close>

theorem total_synthesis_failure:
  assumes "fs story_file_path = Some (TextFile story_text)"
    and "fs speaker_voice_wav \<noteq> None"
    and "makedirs fs (py ''story_chunks'') = None"
    and "\<forall>p\<in>set (enumerate 0 (segment story_text)).
           tts_to_file (snd p) (chunk_file (py ''story_chunks'') (fst p)) speaker_voice_wav (py ''en'')
             = None"
  shows "main segment gap tts_to_file ratecv export_ok fs = (AudioGenerationFailed, fs)"
proof -
  from assms(3,4) have "generate_long_audio segment tts_to_file story_text speaker_voice_wav
      (py ''story_chunks'') fs = Inr ([], fs)"
    by (simp add: generate_long_audio_def generate_chunks_all_fail rendered_def)
  with assms(1,2) show ?thesis by (simp add: main_def)
qed

subsection \<open>Examples of synthesis, assembly and the run\<close>

lemmas path_eval =
  py_def chunk_file_def format_04d_def decimal.simps eval_nat_numeral

lemmas pipeline_eval =
  tts_failing_on_def export_always_def from_wav_def combine_audio_files_def
  story_file_path_def speaker_voice_wav_def final_audio_path_def

theorem generate_skips_failed_chunks_witness:
  "{2} = {i. i < length [py ''a'', py ''b'', py ''c'', py ''d'', py ''e''] \<and>
             tts_failing_on [py ''out/chunk_0002.wav'']
               ([py ''a'', py ''b'', py ''c'', py ''d'', py ''e''] ! i)
               (chunk_file (py ''out'') i) (py ''Sample.wav'') (py ''en'') = None} \<and>
   fst (generate_chunks (tts_failing_on [py ''out/chunk_0002.wav'']) (py ''Sample.wav'') (py ''out'')
          (enumerate 0 [py ''a'', py ''b'', py ''c'', py ''d'', py ''e'']) ([], Map.empty))
     = [py ''out/chunk_0000.wav'', py ''out/chunk_0001.wav'', py ''out/chunk_0003.wav'',
        py ''out/chunk_0004.wav''] \<and>
   length (fst (generate_chunks (tts_failing_on [py ''out/chunk_0002.wav'']) (py ''Sample.wav'')
          (py ''out'') (enumerate 0 [py ''a'', py ''b'', py ''c'', py ''d'', py ''e''])
          ([], Map.empty))) = 5 - card {2::nat}"
proof -
  let ?fails = "\<lambda>i. tts_failing_on [py ''out/chunk_0002.wav'']
      ([py ''a'', py ''b'', py ''c'', py ''d'', py ''e''] ! i)
      (chunk_file (py ''out'') i) (py ''Sample.wav'') (py ''en'') = None"
  have ok: "\<not> ?fails 0" "\<not> ?fails 1" "?fails 2" "\<not> ?fails 3" "\<not> ?fails 4"
    by (simp_all add: tts_failing_on_def path_eval)
  have five: "i < length [py ''a'', py ''b'', py ''c'', py ''d'', py ''e'']
      \<longleftrightarrow> i = 0 \<or> i = 1 \<or> i = 2 \<or> i = 3 \<or> i = 4" for i
    by (simp add: less_Suc_eq eval_nat_numeral)
  have F: "{2} = {i. i < length [py ''a'', py ''b'', py ''c'', py ''d'', py ''e''] \<and> ?fails i}"
    unfolding five using ok by blast
  have up: "[0..<5] = [0, 1, 2, 3, 4::nat]" by (simp add: upt_rec)
  have run: "fst (generate_chunks (tts_failing_on [py ''out/chunk_0002.wav'']) (py ''Sample.wav'')
          (py ''out'') (enumerate 0 [py ''a'', py ''b'', py ''c'', py ''d'', py ''e''])
          ([], Map.empty))
     = [py ''out/chunk_0000.wav'', py ''out/chunk_0001.wav'', py ''out/chunk_0003.wav'',
        py ''out/chunk_0004.wav''] \<and>
   length (fst (generate_chunks (tts_failing_on [py ''out/chunk_0002.wav'']) (py ''Sample.wav'')
          (py ''out'') (enumerate 0 [py ''a'', py ''b'', py ''c'', py ''d'', py ''e''])
          ([], Map.empty))) = 5 - card {2::nat}"
    using generate_skips_failed_chunks [where F = "{2}"
        and chunks = "[py ''a'', py ''b'', py ''c'', py ''d'', py ''e'']"
        and tts_to_file = "tts_failing_on [py ''out/chunk_0002.wav'']"
        and output_dir = "py ''out''" and speaker = "py ''Sample.wav''" and fs = Map.empty,
        OF F]
    by (simp add: up path_eval)
  from F run show ?thesis by (rule conjI)
qed

lemma length_ratecv_repeat: "length (ratecv_repeat r r' data) = (r' div r) * length data"
  by (induction data) (simp_all add: ratecv_repeat_def)

lemma ratecv_repeat_doubles: "resamples_within ratecv_repeat {11025, 22050} 0"
  by (auto simp: resamples_within_def length_ratecv_repeat)

theorem assembled_duration_witness:
  "combine_audio_files 500 ratecv_repeat export_always
     [py ''a.wav'', py ''gone.wav'', py ''b.wav''] (py ''out.wav'')
     [py ''a.wav'' \<mapsto> WavFile \<lparr>frame_rate = 22050, frames = [1, 2]\<rparr>,
      py ''b.wav'' \<mapsto> WavFile \<lparr>frame_rate = 22050, frames = [3]\<rparr>]
   = Inr (py ''out.wav'',
       [py ''a.wav'' \<mapsto> WavFile \<lparr>frame_rate = 22050, frames = [1, 2]\<rparr>,
        py ''b.wav'' \<mapsto> WavFile \<lparr>frame_rate = 22050, frames = [3]\<rparr>,
        py ''out.wav'' \<mapsto> WavFile \<lparr>frame_rate = 22050,
          frames = [1, 2] @ ratecv_repeat 11025 22050 (replicate 5512 0)
                   @ [3] @ ratecv_repeat 11025 22050 (replicate 5512 0)\<rparr>]) \<and>
   resamples_within ratecv_repeat {11025, 22050} 0 \<and>
   (\<exists>track.
      [py ''a.wav'' \<mapsto> WavFile \<lparr>frame_rate = 22050, frames = [1, 2]\<rparr>,
       py ''b.wav'' \<mapsto> WavFile \<lparr>frame_rate = 22050, frames = [3]\<rparr>,
       py ''out.wav'' \<mapsto> WavFile \<lparr>frame_rate = 22050,
         frames = [1, 2] @ ratecv_repeat 11025 22050 (replicate 5512 0)
                  @ [3] @ ratecv_repeat 11025 22050 (replicate 5512 0)\<rparr>] (py ''out.wav'')
        = Some (WavFile track) \<and>
      \<bar>duration_ms track
         - (duration_ms \<lparr>frame_rate = 22050, frames = [1, 2]\<rparr>
            + duration_ms \<lparr>frame_rate = 22050, frames = [3]\<rparr> + 2 * 500)\<bar>
        \<le> 2 * (2 * 0 + 1000 / 11025))"
proof -
  let ?fs = "[py ''a.wav'' \<mapsto> WavFile \<lparr>frame_rate = 22050, frames = [1, 2]\<rparr>,
      py ''b.wav'' \<mapsto> WavFile \<lparr>frame_rate = 22050, frames = [3]\<rparr>]"
  let ?files = "[py ''a.wav'', py ''gone.wav'', py ''b.wav'']"
  have run: "combine_audio_files 500 ratecv_repeat export_always ?files (py ''out.wav'') ?fs
    = Inr (py ''out.wav'',
        ?fs(py ''out.wav'' \<mapsto> WavFile \<lparr>frame_rate = 22050,
          frames = [1, 2] @ ratecv_repeat 11025 22050 (replicate 5512 0)
                   @ [3] @ ratecv_repeat 11025 22050 (replicate 5512 0)\<rparr>))"
    by (simp add: pipeline_eval py_def audio_add_def set_frame_rate_def silent_def
        audio_empty_def Let_def)
  have decoded: "List.map_filter (from_wav ?fs) ?files
      = [\<lparr>frame_rate = 22050, frames = [1, 2]\<rparr>, \<lparr>frame_rate = 22050, frames = [3]\<rparr>]"
    by (simp add: List.map_filter_simps from_wav_def py_def)
  have H: "resamples_within ratecv_repeat
      (insert 11025 (frame_rate ` set (List.map_filter (from_wav ?fs) ?files))) 0"
    unfolding decoded using ratecv_repeat_doubles by simp
  from assembled_duration [OF run H] have "\<exists>track.
      (?fs(py ''out.wav'' \<mapsto> WavFile \<lparr>frame_rate = 22050,
          frames = [1, 2] @ ratecv_repeat 11025 22050 (replicate 5512 0)
                   @ [3] @ ratecv_repeat 11025 22050 (replicate 5512 0)\<rparr>)) (py ''out.wav'')
        = Some (WavFile track) \<and>
      \<bar>duration_ms track
         - (duration_ms \<lparr>frame_rate = 22050, frames = [1, 2]\<rparr>
            + duration_ms \<lparr>frame_rate = 22050, frames = [3]\<rparr> + 2 * 500)\<bar>
        \<le> 2 * (2 * 0 + 1000 / 11025)"
    unfolding decoded by simp
  with run ratecv_repeat_doubles show ?thesis by blast
qed

text \<open>
  C2 as stated fails: one file of 1000 ms at 11025 frames per second and a silence of 500 ms
  give a track of 16537 frames, which is 499.95 ms more than the stated 1000 ms. Nothing
  is resampled here.
\<close>

theorem assembled_duration_counterexample:
  "combine_audio_files 500 ratecv_repeat export_always [py ''a.wav''] (py ''out.wav'')
     [py ''a.wav'' \<mapsto> WavFile \<lparr>frame_rate = 11025, frames = replicate 11025 0\<rparr>]
   = Inr (py ''out.wav'',
       [py ''a.wav'' \<mapsto> WavFile \<lparr>frame_rate = 11025, frames = replicate 11025 0\<rparr>,
        py ''out.wav'' \<mapsto> WavFile \<lparr>frame_rate = 11025,
          frames = replicate 11025 0 @ replicate 5512 0\<rparr>]) \<and>
   from_wav [py ''a.wav'' \<mapsto> WavFile \<lparr>frame_rate = 11025, frames = replicate 11025 0\<rparr>]
     (py ''a.wav'') = Some \<lparr>frame_rate = 11025, frames = replicate 11025 0\<rparr> \<and>
   duration_ms \<lparr>frame_rate = 11025, frames = replicate 11025 0\<rparr> = 1000 \<and>
   duration_ms \<lparr>frame_rate = 11025, frames = replicate 11025 0 @ replicate 5512 0\<rparr>
     - (1000 + (1 - 1) * 500) > 499"
  by (simp add: pipeline_eval py_def audio_add_def set_frame_rate_def silent_def
      audio_empty_def Let_def duration_ms_def)

theorem combine_without_audio_exports_empty_track_witness:
  "from_wav [py ''a.wav'' \<mapsto> TextFile (py ''x'')] (py ''a.wav'') = None \<and>
   from_wav [py ''a.wav'' \<mapsto> TextFile (py ''x'')] (py ''b.wav'') = None \<and>
   combine_audio_files 500 ratecv_repeat export_always [py ''a.wav'', py ''b.wav''] (py ''out.wav'')
     [py ''a.wav'' \<mapsto> TextFile (py ''x'')]
   = Inr (py ''out.wav'',
       [py ''a.wav'' \<mapsto> TextFile (py ''x''), py ''out.wav'' \<mapsto> WavFile audio_empty])"
proof -
  have none: "\<forall>p\<in>set [py ''a.wav'', py ''b.wav''].
      from_wav [py ''a.wav'' \<mapsto> TextFile (py ''x'')] p = None"
    by (simp add: from_wav_def py_def)
  show ?thesis
    using combine_without_audio_exports_empty_track [OF none,
        of 500 ratecv_repeat export_always "py ''out.wav''"] none
    by (simp add: export_always_def)
qed

text \<open>
  C3 as stated fails: with no file, and with one file that is missing, the function returns
  the path and leaves an empty track there.
\<close>

theorem combine_without_audio_counterexample:
  "combine_audio_files 500 ratecv_repeat export_always [] (py ''out.wav'') Map.empty
     = Inr (py ''out.wav'', [py ''out.wav'' \<mapsto> WavFile audio_empty]) \<and>
   combine_audio_files 500 ratecv_repeat export_always [py ''a.wav''] (py ''out.wav'') Map.empty
     = Inr (py ''out.wav'', [py ''out.wav'' \<mapsto> WavFile audio_empty]) \<and>
   duration_ms audio_empty = 0"
  by (simp add: pipeline_eval duration_ms_def audio_empty_def)

theorem total_synthesis_failure_witness:
  "[story_file_path \<mapsto> TextFile (py ''One. Two.''),
    speaker_voice_wav \<mapsto> WavFile \<lparr>frame_rate = 24000, frames = [0]\<rparr>]
     story_file_path = Some (TextFile (py ''One. Two.'')) \<and>
   [story_file_path \<mapsto> TextFile (py ''One. Two.''),
    speaker_voice_wav \<mapsto> WavFile \<lparr>frame_rate = 24000, frames = [0]\<rparr>]
     speaker_voice_wav \<noteq> None \<and>
   makedirs [story_file_path \<mapsto> TextFile (py ''One. Two.''),
             speaker_voice_wav \<mapsto> WavFile \<lparr>frame_rate = 24000, frames = [0]\<rparr>]
     (py ''story_chunks'') = None \<and>
   enumerate 0 (mac_cpu_segment (py ''One. Two.'')) = [(0, py ''One. Two.'')] \<and>
   mac_cpu_main (tts_failing_on [py ''story_chunks/chunk_0000.wav'']) ratecv_repeat export_always
     [story_file_path \<mapsto> TextFile (py ''One. Two.''),
      speaker_voice_wav \<mapsto> WavFile \<lparr>frame_rate = 24000, frames = [0]\<rparr>]
   = (AudioGenerationFailed,
      [story_file_path \<mapsto> TextFile (py ''One. Two.''),
       speaker_voice_wav \<mapsto> WavFile \<lparr>frame_rate = 24000, frames = [0]\<rparr>])"
proof -
  let ?fs = "[story_file_path \<mapsto> TextFile (py ''One. Two.''),
      speaker_voice_wav \<mapsto> WavFile \<lparr>frame_rate = 24000, frames = [0]\<rparr>]"
  have story: "?fs story_file_path = Some (TextFile (py ''One. Two.''))"
    by (simp add: pipeline_eval py_def)
  have speaker: "?fs speaker_voice_wav \<noteq> None" by simp
  have dir: "makedirs ?fs (py ''story_chunks'') = None"
    by (simp add: makedirs_def pipeline_eval py_def)
  have chunks: "enumerate 0 (mac_cpu_segment (py ''One. Two.'')) = [(0, py ''One. Two.'')]"
    by (simp add: mac_cpu_segment_def segment_eval)
  have fail: "\<forall>p\<in>set (enumerate 0 (mac_cpu_segment (py ''One. Two.''))).
      tts_failing_on [py ''story_chunks/chunk_0000.wav''] (snd p)
        (chunk_file (py ''story_chunks'') (fst p)) speaker_voice_wav (py ''en'') = None"
    unfolding chunks by (simp add: tts_failing_on_def path_eval)
  from total_synthesis_failure [where fs = ?fs and story_text = "py ''One. Two.''"
      and segment = mac_cpu_segment and gap = 500 and export_ok = export_always
      and ratecv = ratecv_repeat
      and tts_to_file = "tts_failing_on [py ''story_chunks/chunk_0000.wav'']",
      OF story speaker dir fail]
  have run: "mac_cpu_main (tts_failing_on [py ''story_chunks/chunk_0000.wav'']) ratecv_repeat
      export_always ?fs = (AudioGenerationFailed, ?fs)"
    by (simp add: mac_cpu_main_def)
  from story speaker dir chunks run show ?thesis by (intro conjI)
qed

text \<open>
  The other way the run can end before any synthesis: a regular file named
  \<open>story_chunks\<close> makes \<open>os.makedirs\<close> raise, and nothing catches it.
\<close>

lemma main_makedirs_error_example:
  "mac_cpu_main (tts_failing_on []) ratecv_repeat export_always
     [story_file_path \<mapsto> TextFile (py ''One. Two.''),
      speaker_voice_wav \<mapsto> WavFile \<lparr>frame_rate = 24000, frames = [0]\<rparr>,
      py ''story_chunks'' \<mapsto> TextFile (py ''x'')]
   = (Uncaught OSError,
      [story_file_path \<mapsto> TextFile (py ''One. Two.''),
       speaker_voice_wav \<mapsto> WavFile \<lparr>frame_rate = 24000, frames = [0]\<rparr>,
       py ''story_chunks'' \<mapsto> TextFile (py ''x'')])"
proof -
  let ?fs = "[story_file_path \<mapsto> TextFile (py ''One. Two.''),
      speaker_voice_wav \<mapsto> WavFile \<lparr>frame_rate = 24000, frames = [0]\<rparr>,
      py ''story_chunks'' \<mapsto> TextFile (py ''x'')]"
  have story: "?fs story_file_path = Some (TextFile (py ''One. Two.''))"
    by (simp add: pipeline_eval py_def)
  have speaker: "?fs speaker_voice_wav \<noteq> None"
    by (simp add: pipeline_eval py_def)
  have dir: "makedirs ?fs (py ''story_chunks'') = Some OSError"
    by (simp add: makedirs_def)
  from main_makedirs_error [OF story speaker dir] show ?thesis
    by (simp add: mac_cpu_main_def)
qed

end
